theory Spec2Isabelle
  imports Complex_Main "HOL-Library.Word" "HOL-Library.Sublist"
begin

section \<open>Python values, exceptions and processes\<close>

text \<open>
  Both scripts are linear Python programs over JSON values, byte strings and images.
  An exception is a value of \<open>py_error\<close>; a function that may raise returns
  \<open>py_error + 'a\<close> with \<open>Inl\<close> for the exception. The exceptions that the
  source or a library raises carry the text that \<open>str(e)\<close> gives; the ones the
  interpreter raises on an ill-shaped value (\<open>TypeError\<close>, \<open>IndexError\<close>) carry
  none: their wording differs between Python versions and they are never printed by
  the scripts (they can only escape as a traceback).
\<close>

type_synonym byte = "8 word"

datatype py_error =
    Exception string
  | OSError string
  | RequestException string
  | JSONDecodeError string
  | ImageError string
  | ImportError string
  | KeyError string
  | TypeError
  | IndexError

text \<open>\<open>str(e)\<close>: the single argument of the exception; \<open>str(KeyError(k))\<close> is the
  \<open>repr\<close> of the key, which for the literal keys used here is the key in quotes. The only
  \<open>str(e)\<close> of the scripts is in the handler around \<open>query_image\<close>, which the last two
  exceptions cannot reach; their text is left empty.\<close>

fun str_exc :: "py_error \<Rightarrow> string" where
  "str_exc (Exception m) = m"
| "str_exc (OSError m) = m"
| "str_exc (RequestException m) = m"
| "str_exc (JSONDecodeError m) = m"
| "str_exc (ImageError m) = m"
| "str_exc (ImportError m) = m"
| "str_exc (KeyError k) = [CHR 0x27] @ k @ [CHR 0x27]"
| "str_exc TypeError = []"
| "str_exc IndexError = []"

text \<open>\<open>str(n)\<close> for an integer: its decimal digits, with a minus sign when negative.\<close>

definition digit :: "nat \<Rightarrow> char" where
  "digit d = ''0123456789'' ! d"

fun str_nat :: "nat \<Rightarrow> string" where
  "str_nat n = (if n < 10 then [digit n] else str_nat (n div 10) @ [digit (n mod 10)])"

definition str_int :: "int \<Rightarrow> string" where
  "str_int i = (if i < 0 then CHR ''-'' # str_nat (nat (- i)) else str_nat (nat i))"

text \<open>JSON values as \<open>json.loads\<close> builds them. A \<open>dict\<close> is an association list in
  insertion order; its keys are distinct.\<close>

datatype json =
    JNull
  | JBool bool
  | JInt int
  | JFloat rat
  | JStr string
  | JArr "json list"
  | JObj "(string \<times> json) list"

text \<open>An HTTP exchange as \<open>requests\<close> shows it: what is posted, and the response's
  \<open>status_code\<close> and \<open>text\<close>.\<close>

datatype body = JsonBody json | DataBody "byte list"

record request =
  url :: string
  headers :: "(string \<times> string) list"
  payload :: body

record response =
  status_code :: int
  body_text :: string

text \<open>What a run of a script leaves behind: the lines written by \<open>print\<close> (one entry
  per call), the exit code, and the exception that ended the run if one escaped.
  An escaped exception makes the interpreter exit with code 1.\<close>

record process =
  stdout :: "string list"
  exit_code :: int
  uncaught :: "py_error option"

definition crash :: "string list \<Rightarrow> py_error \<Rightarrow> process" where
  "crash out e = \<lparr>stdout = out, exit_code = 1, uncaught = Some e\<rparr>"

definition sys_exit :: "string list \<Rightarrow> int \<Rightarrow> process" where
  "sys_exit out c = \<lparr>stdout = out, exit_code = c, uncaught = None\<rparr>"

text \<open>An f-string field holding an optional string: \<open>None\<close> prints as the word.\<close>

definition fmt_opt :: "string option \<Rightarrow> string" where
  "fmt_opt v = (case v of None \<Rightarrow> ''None'' | Some s \<Rightarrow> s)"

subsection \<open>Images\<close>

text \<open>
  Arrays are lists of rows. The original image is an RGB image (\<open>numpy\<close> shape
  \<open>(height, width, 3)\<close>, dtype \<open>uint8\<close>); a mask is a single-band image (shape
  \<open>(height, width)\<close>, dtype \<open>uint8\<close>), which is what the API sends. Every row of an
  image has the same length.
\<close>

type_synonym uint8 = "8 word"
type_synonym color = "uint8 \<times> uint8 \<times> uint8"
type_synonym rgb_image = "color list list"
type_synonym gray_image = "uint8 list list"

text \<open>
  \<open>Image.open\<close> identifies the file and reads no pixels; they are read when \<open>np.array\<close>
  asks for them, which raises on a file that is cut short. An opened image is what
  \<open>np.array\<close> will give for it: the exception or the array.
\<close>

type_synonym pil_image = "py_error + rgb_image"

section \<open>The world outside the scripts\<close>

text \<open>
  The operating system, the network and the library calls whose results the scripts only
  pass along are parameters of a run. \<open>'j\<close> is the type of a parsed response body.
  \<^item> \<open>getenv\<close>: \<open>os.getenv\<close> after \<open>load_dotenv()\<close>;
  \<^item> \<open>open_rb\<close>: \<open>open(path, "rb")\<close> followed by \<open>read()\<close>;
  \<^item> \<open>requests_post\<close>: \<open>requests.post\<close>, which raises when no response arrives;
  \<^item> \<open>json_loads\<close>: \<open>response.json()\<close>, as a function of the body text;
  \<^item> \<open>json_dumps\<close>: \<open>json.dumps(_, indent=2)\<close>;
  \<^item> \<open>py_repr\<close>: how \<open>print\<close> shows a JSON value that is not a string;
  \<^item> \<open>b64encode\<close>: \<open>base64.b64encode\<close>, decoded as UTF-8 text;
  \<^item> \<open>Image_open\<close>: \<open>Image.open\<close> on a path, which raises when the file is missing or
    is no image;
  \<^item> \<open>open_b64_mask\<close>: \<open>base64.b64decode\<close>, \<open>Image.open\<close> and \<open>np.array\<close> on a string;
  \<^item> \<open>get_instructions\<close>: \<open>get_prompt.get_instructions()\<close>, a module of the repository
    that the vision script imports.
\<close>

record 'j world =
  getenv :: "string \<Rightarrow> string option"
  open_rb :: "string \<Rightarrow> py_error + byte list"
  requests_post :: "request \<Rightarrow> py_error + response"
  json_loads :: "string \<Rightarrow> py_error + 'j"
  json_dumps :: "'j \<Rightarrow> string"
  py_repr :: "json \<Rightarrow> string"
  b64encode :: "byte list \<Rightarrow> string"
  Image_open :: "string \<Rightarrow> py_error + pil_image"
  open_b64_mask :: "string \<Rightarrow> py_error + gray_image"
  get_instructions :: "py_error + string"

section \<open>semantic-segmentation-huggingface-api.py\<close>

subsection \<open>Constants and arrays\<close>

definition API_URL :: string where
  "API_URL = ''https://api-inference.huggingface.co/models/nvidia/segformer-b0-finetuned-ade-512-512''"

definition palette :: "color list" where
  "palette =
    [(230, 25, 75),
     (60, 180, 75),
     (255, 225, 25),
     (0, 130, 200),
     (245, 130, 48),
     (145, 30, 180),
     (70, 240, 240),
     (240, 50, 230),
     (210, 245, 60),
     (250, 190, 190)]"

definition shape2 :: "'a list list \<Rightarrow> nat \<times> nat" where
  "shape2 a = (length a, case a of [] \<Rightarrow> 0 | row # _ \<Rightarrow> length row)"

definition rect :: "nat \<Rightarrow> nat \<Rightarrow> 'a list list \<Rightarrow> bool" where
  "rect h w a = (length a = h \<and> list_all (\<lambda>row. length row = w) a)"

definition zeros :: "nat \<Rightarrow> nat \<Rightarrow> rgb_image" where
  "zeros h w = replicate h (replicate w (0, 0, 0))"

subsection \<open>The segmentation results\<close>

text \<open>
  One entry of \<open>segmentation_results\<close> is a \<open>dict\<close> read with \<open>.get\<close>, so each of its two
  fields may be absent. The label is a string. The mask is a string (base64 of an image
  file), a PIL image, or any other object, kept as the text that \<open>type(mask_data)\<close>
  prints for it.
\<close>

datatype mask_value = MaskStr string | MaskImage gray_image | MaskOther string

record seg_result =
  label :: "string option"
  mask_field :: "mask_value option"

definition NoneType :: string where
  "NoneType = ''<class '' @ [CHR 0x27] @ ''NoneType'' @ [CHR 0x27] @ ''>''"

text \<open>\<open>result.get("label", "unknown")\<close> and \<open>result.get("mask")\<close>.\<close>

definition get_label :: "seg_result \<Rightarrow> string" where
  "get_label result = (case label result of None \<Rightarrow> ''unknown'' | Some l \<Rightarrow> l)"

definition get_mask :: "seg_result \<Rightarrow> mask_value" where
  "get_mask result = (case mask_field result of None \<Rightarrow> MaskOther NoneType | Some m \<Rightarrow> m)"

subsection \<open>plot_segmentation_map\<close>

text \<open>The two variables the loop updates. \<open>label_to_color\<close> is a \<open>dict\<close>, kept in
  insertion order because the legend is drawn from its \<open>items()\<close>.\<close>

type_synonym label_map = "(string \<times> color) list"

record loop_state =
  overlay :: rgb_image
  label_to_color :: label_map

text \<open>Lines 79 to 82: a label not yet in the map gets the next palette entry.\<close>

definition assign_color :: "label_map \<Rightarrow> string \<Rightarrow> label_map" where
  "assign_color l2c lbl =
     (if lbl \<notin> fst ` set l2c
      then l2c @ [(lbl, palette ! (length l2c mod length palette))]
      else l2c)"

text \<open>Line 76: \<open>binary_mask = mask_np > 128\<close>.\<close>

definition threshold :: "gray_image \<Rightarrow> bool list list" where
  "threshold mask_np = map (map (\<lambda>v. 128 < v)) mask_np"

text \<open>Line 85: \<open>overlay[binary_mask] = color\<close>. A boolean index whose shape differs from
  the first two axes of the array raises \<open>IndexError\<close>.\<close>

definition paint :: "rgb_image \<Rightarrow> bool list list \<Rightarrow> color \<Rightarrow> py_error + rgb_image" where
  "paint ov binary_mask c =
     (let (h, w) = shape2 ov in
      if rect h w binary_mask
      then Inr (map2 (\<lambda>orow mrow. map2 (\<lambda>px m. if m then c else px) orow mrow) ov binary_mask)
      else Inl IndexError)"

text \<open>Lines 75 to 85, for a mask that has been decoded.\<close>

definition paint_result :: "loop_state \<Rightarrow> string \<Rightarrow> gray_image \<Rightarrow> py_error + loop_state" where
  "paint_result st lbl mask_np =
     (let binary_mask = threshold mask_np;
          l2c = assign_color (label_to_color st) lbl
      in case map_of l2c lbl of
           None \<Rightarrow> Inl (KeyError lbl)
         | Some c \<Rightarrow>
             (case paint (overlay st) binary_mask c of
                Inl e \<Rightarrow> Inl e
              | Inr ov \<Rightarrow> Inr \<lparr>overlay = ov, label_to_color = l2c\<rparr>))"

text \<open>
  One iteration of the loop (lines 62 to 85). It returns the lines it printed and either
  the exception it raised or the updated state. \<open>mask_open\<close> stands for the library
  calls of lines 67, 68 and 75 on a string (\<open>base64.b64decode\<close>, \<open>Image.open\<close>,
  \<open>np.array\<close>), which raise on a string that is not an encoded image.
\<close>

definition loop_body ::
  "(string \<Rightarrow> py_error + gray_image) \<Rightarrow> loop_state \<Rightarrow> seg_result \<Rightarrow> string list \<times> (py_error + loop_state)"
where
  "loop_body mask_open st result =
     (let lbl = get_label result in
      case get_mask result of
        MaskStr s \<Rightarrow>
          (case mask_open s of
             Inl e \<Rightarrow> ([], Inl e)
           | Inr mask_np \<Rightarrow> ([], paint_result st lbl mask_np))
      | MaskImage mask_np \<Rightarrow> ([], paint_result st lbl mask_np)
      | MaskOther ty \<Rightarrow>
          ([''Unexpected mask type for '' @ lbl @ '': '' @ ty], Inr st))"

fun loop ::
  "(string \<Rightarrow> py_error + gray_image) \<Rightarrow> loop_state \<Rightarrow> seg_result list \<Rightarrow> string list \<times> (py_error + loop_state)"
where
  "loop mask_open st [] = ([], Inr st)"
| "loop mask_open st (result # rest) =
     (case loop_body mask_open st result of
        (out, Inl e) \<Rightarrow> (out, Inl e)
      | (out, Inr st') \<Rightarrow>
          (case loop mask_open st' rest of (out', r) \<Rightarrow> (out @ out', r)))"

text \<open>
  Line 89: \<open>(alpha * orig_np + (1 - alpha) * overlay).astype(np.uint8)\<close>. The products
  and the sum are halves of integers below 511, which binary floating point represents
  exactly, so rational arithmetic gives the same numbers. \<open>astype(np.uint8)\<close> drops the
  fraction.
\<close>

definition alpha :: rat where
  "alpha = 1 / 2"

definition astype_uint8 :: "rat \<Rightarrow> uint8" where
  "astype_uint8 q = word_of_int (if 0 \<le> q then \<lfloor>q\<rfloor> else \<lceil>q\<rceil>)"

definition blend_channel :: "uint8 \<Rightarrow> uint8 \<Rightarrow> uint8" where
  "blend_channel a b = astype_uint8 (alpha * of_nat (unat a) + (1 - alpha) * of_nat (unat b))"

fun blend_pixel :: "color \<Rightarrow> color \<Rightarrow> color" where
  "blend_pixel (r, g, b) (r', g', b') = (blend_channel r r', blend_channel g g', blend_channel b b')"

definition blend :: "rgb_image \<Rightarrow> rgb_image \<Rightarrow> rgb_image" where
  "blend orig_np ov = map2 (map2 blend_pixel) orig_np ov"

text \<open>What the function hands to \<open>matplotlib\<close>: the blended image it shows and saves, the
  legend (one patch per item of \<open>label_to_color\<close>, in order) and the path it saves to.
  \<open>plot_segmentation_map\<close> is the function from line 57 on, for the array \<open>orig_np\<close> that
  line 56 has read.\<close>

record figure =
  blended :: rgb_image
  legend :: label_map
  saved_as :: string

definition plot_segmentation_map ::
  "(string \<Rightarrow> py_error + gray_image) \<Rightarrow> rgb_image \<Rightarrow> seg_result list \<Rightarrow> string \<Rightarrow> string list \<times> (py_error + figure)"
where
  "plot_segmentation_map mask_open orig_np segmentation_results output_path =
     (let (height, width) = shape2 orig_np;
          st0 = \<lparr>overlay = zeros height width, label_to_color = []\<rparr>
      in case loop mask_open st0 segmentation_results of
           (out, Inl e) \<Rightarrow> (out, Inl e)
         | (out, Inr st) \<Rightarrow>
             (out @ [''Segmentation map saved as '' @ output_path],
              Inr \<lparr>blended = blend orig_np (overlay st),
                   legend = label_to_color st,
                   saved_as = output_path\<rparr>))"

subsection \<open>query_image and the script\<close>

definition seg_headers :: "'j world \<Rightarrow> (string \<times> string) list" where
  "seg_headers w =
     [(''Authorization'', ''Bearer '' @ fmt_opt (getenv w ''HUGGINGFACE_API_TOKEN'')),
      (''x-wait-for-model'', ''true''),
      (''Content-Type'', ''application/octet-stream'')]"

definition query_image :: "'j world \<Rightarrow> string \<Rightarrow> py_error + 'j" where
  "query_image w image_path =
     (case open_rb w image_path of
        Inl e \<Rightarrow> Inl e
      | Inr image_bytes \<Rightarrow>
          (case requests_post w \<lparr>url = API_URL, headers = seg_headers w, payload = DataBody image_bytes\<rparr> of
             Inl e \<Rightarrow> Inl e
           | Inr resp \<Rightarrow>
               if status_code resp \<noteq> 200
               then Inl (Exception (''Request failed: '' @ str_int (status_code resp) @ '', '' @ body_text resp))
               else json_loads w (body_text resp)))"

text \<open>
  The script body (lines 106 to 119). \<open>Image.open\<close> stands before the \<open>try\<close>, so its
  exception escapes; every exception of \<open>query_image\<close> is caught, printed and turned into
  \<open>exit(1)\<close>; an exception of \<open>plot_segmentation_map\<close> escapes. The pixels of the
  original image are read by line 56, the first statement of \<open>plot_segmentation_map\<close>,
  after the request and the two prints.
\<close>

definition main_seg :: "seg_result list world \<Rightarrow> process" where
  "main_seg w =
     (let image_path = ''image-of-road.jpg'' in
      case Image_open w image_path of
        Inl e \<Rightarrow> crash [] e
      | Inr original_image \<Rightarrow>
          (case query_image w image_path of
             Inl e \<Rightarrow> sys_exit [str_exc e] 1
           | Inr segmentation_results \<Rightarrow>
               (let out = [''API Response:'', json_dumps w segmentation_results] in
                case original_image of
                  Inl e \<Rightarrow> crash out e
                | Inr orig_np \<Rightarrow>
                    (case plot_segmentation_map (open_b64_mask w) orig_np segmentation_results
                            ''segmentation_map.png'' of
                       (out', Inl e) \<Rightarrow> crash (out @ out') e
                     | (out', Inr fig) \<Rightarrow> sys_exit (out @ out' @ [''Done'']) 0))))"

section \<open>image-support-with-openai-api.py\<close>

definition OPENAI_MODEL :: string where
  "OPENAI_MODEL = ''gpt-4o-mini''"

definition MAX_TOKENS :: int where
  "MAX_TOKENS = 2000"

definition TEMPERATURE :: rat where
  "TEMPERATURE = 7 / 10"

definition encode_image :: "'j world \<Rightarrow> string \<Rightarrow> py_error + string" where
  "encode_image w image_path =
     (case open_rb w image_path of
        Inl e \<Rightarrow> Inl e
      | Inr bytes \<Rightarrow> Inr (b64encode w bytes))"

definition make_text_image_request :: "'j world \<Rightarrow> string \<Rightarrow> string \<Rightarrow> py_error + 'j" where
  "make_text_image_request w prompt image_path =
     (case encode_image w image_path of
        Inl e \<Rightarrow> Inl e
      | Inr base64_image \<Rightarrow>
          (let hdrs = [(''Content-Type'', ''application/json''),
                       (''Authorization'', ''Bearer '' @ fmt_opt (getenv w ''OPENAI_API_KEY''))];
               pl = JObj
                 [(''model'', JStr OPENAI_MODEL),
                  (''messages'', JArr
                     [JObj
                        [(''role'', JStr ''user''),
                         (''content'', JArr
                            [JObj [(''type'', JStr ''text''), (''text'', JStr prompt)],
                             JObj [(''type'', JStr ''image_url''),
                                   (''image_url'', JObj
                                      [(''url'', JStr (''data:image/jpeg;base64,'' @ base64_image))])]])]]),
                  (''max_tokens'', JInt MAX_TOKENS),
                  (''temperature'', JFloat TEMPERATURE)]
           in case requests_post w
                     \<lparr>url = ''https://api.openai.com/v1/chat/completions'', headers = hdrs,
                      payload = JsonBody pl\<rparr> of
                Inl e \<Rightarrow> Inl e
              | Inr resp \<Rightarrow> json_loads w (body_text resp)))"

text \<open>The request of lines 19 to 47 on its own, to say which call was answered or
  raised.\<close>

definition chat_request :: "'j world \<Rightarrow> string \<Rightarrow> string \<Rightarrow> request" where
  "chat_request w prompt base64_image =
     \<lparr>url = ''https://api.openai.com/v1/chat/completions'',
      headers = [(''Content-Type'', ''application/json''),
                 (''Authorization'', ''Bearer '' @ fmt_opt (getenv w ''OPENAI_API_KEY''))],
      payload = JsonBody (JObj
        [(''model'', JStr OPENAI_MODEL),
         (''messages'', JArr
            [JObj
               [(''role'', JStr ''user''),
                (''content'', JArr
                   [JObj [(''type'', JStr ''text''), (''text'', JStr prompt)],
                    JObj [(''type'', JStr ''image_url''),
                          (''image_url'', JObj
                             [(''url'', JStr (''data:image/jpeg;base64,'' @ base64_image))])]])]]),
         (''max_tokens'', JInt MAX_TOKENS),
         (''temperature'', JFloat TEMPERATURE)])\<rparr>"

text \<open>
  The three operations \<open>read_content\<close> applies to a value of unknown shape, with what
  Python does on each type: \<open>k in v\<close>, \<open>v[k]\<close> for a string \<open>k\<close>, and iteration.
\<close>

fun py_in :: "string \<Rightarrow> json \<Rightarrow> py_error + bool" where
  "py_in k (JObj kvs) = Inr (k \<in> fst ` set kvs)"
| "py_in k (JArr xs) = Inr (JStr k \<in> set xs)"
| "py_in k (JStr s) = Inr (sublist k s)"
| "py_in k _ = Inl TypeError"

fun py_getitem :: "json \<Rightarrow> string \<Rightarrow> py_error + json" where
  "py_getitem (JObj kvs) k = (case map_of kvs k of None \<Rightarrow> Inl (KeyError k) | Some v \<Rightarrow> Inr v)"
| "py_getitem _ k = Inl TypeError"

fun py_iter :: "json \<Rightarrow> py_error + json list" where
  "py_iter (JArr xs) = Inr xs"
| "py_iter (JStr s) = Inr (map (\<lambda>c. JStr [c]) s)"
| "py_iter (JObj kvs) = Inr (map (\<lambda>kv. JStr (fst kv)) kvs)"
| "py_iter _ = Inl TypeError"

text \<open>A list comprehension: the elements in order, stopping at the first exception.\<close>

fun comprehension :: "('a \<Rightarrow> py_error + 'b) \<Rightarrow> 'a list \<Rightarrow> py_error + 'b list" where
  "comprehension f [] = Inr []"
| "comprehension f (x # xs) =
     (case f x of
        Inl e \<Rightarrow> Inl e
      | Inr y \<Rightarrow> (case comprehension f xs of Inl e \<Rightarrow> Inl e | Inr ys \<Rightarrow> Inr (y # ys)))"

text \<open>\<open>choice["message"]["content"]\<close>.\<close>

definition message_content :: "json \<Rightarrow> py_error + json" where
  "message_content choice =
     (case py_getitem choice ''message'' of
        Inl e \<Rightarrow> Inl e
      | Inr m \<Rightarrow> py_getitem m ''content'')"

definition read_content :: "json \<Rightarrow> py_error + json list" where
  "read_content response_data =
     (case py_in ''choices'' response_data of
        Inl e \<Rightarrow> Inl e
      | Inr present \<Rightarrow>
          if \<not> present then Inr []
          else (case py_getitem response_data ''choices'' of
                  Inl e \<Rightarrow> Inl e
                | Inr choices \<Rightarrow>
                    (case py_iter choices of
                       Inl e \<Rightarrow> Inl e
                     | Inr cs \<Rightarrow> comprehension message_content cs)))"




section \<open>Notions of the specification and concrete runs\<close>

subsection \<open>Rounding\<close>

text \<open>Python's \<open>round\<close> takes a half to the even neighbour; HOL's \<open>round\<close> takes it up.\<close>

definition py_round :: "rat \<Rightarrow> int" where
  "py_round q =
     (let f = \<lfloor>q\<rfloor>; d = q - of_int f in
      if d < 1 / 2 then f
      else if 1 / 2 < d then f + 1
      else if even f then f else f + 1)"

text \<open>A blended pixel as the specification's scenario computes it, for a given way
  \<open>rnd\<close> of making the weighted sum an integer.\<close>

definition spec_channel :: "(rat \<Rightarrow> int) \<Rightarrow> uint8 \<Rightarrow> uint8 \<Rightarrow> uint8" where
  "spec_channel rnd a b = word_of_int (rnd (1 / 2 * of_nat (unat a) + 1 / 2 * of_nat (unat b)))"

fun spec_pixel :: "(rat \<Rightarrow> int) \<Rightarrow> color \<Rightarrow> color \<Rightarrow> color" where
  "spec_pixel rnd (r, g, b) (r', g', b') =
     (spec_channel rnd r r', spec_channel rnd g g', spec_channel rnd b b')"

subsection \<open>The 2 by 2 scenario\<close>

definition grass_image :: rgb_image where
  "grass_image = [[(100, 100, 100), (100, 100, 100)], [(100, 100, 100), (100, 100, 100)]]"

definition grass_result :: seg_result where
  "grass_result = \<lparr>label = Some ''grass'', mask_field = Some (MaskImage [[255, 255], [0, 0]])\<rparr>"

definition no_decoder :: "string \<Rightarrow> py_error + gray_image" where
  "no_decoder s = Inl (ImageError ''cannot identify image file'')"

subsection \<open>Concrete worlds\<close>

definition fixed_world :: "(py_error + byte list) \<Rightarrow> (py_error + response) \<Rightarrow> (string \<Rightarrow> py_error + 'j) \<Rightarrow> 'j world" where
  "fixed_world file resp loads =
     \<lparr>getenv = (\<lambda>k. Some ''secret''),
      open_rb = (\<lambda>p. file),
      requests_post = (\<lambda>req. resp),
      json_loads = loads,
      json_dumps = (\<lambda>j. ''[]''),
      py_repr = (\<lambda>v. ''None''),
      b64encode = (\<lambda>bs. ''AAEC''),
      Image_open = (\<lambda>p. Inr (Inr grass_image)),
      open_b64_mask = no_decoder,
      get_instructions = Inr ''Describe the image.''\<rparr>"

definition server_error :: response where
  "server_error = \<lparr>status_code = 500, body_text = ''server error''\<rparr>"

definition no_results :: response where
  "no_results = \<lparr>status_code = 200, body_text = ''[]''\<rparr>"

definition loads_results :: "string \<Rightarrow> py_error + seg_result list" where
  "loads_results s = (if s = ''[]'' then Inr [] else Inl (JSONDecodeError ''Expecting value''))"

definition world_500 :: "seg_result list world" where
  "world_500 = fixed_world (Inr [0, 1, 2]) (Inr server_error) loads_results"

definition world_200 :: "seg_result list world" where
  "world_200 = fixed_world (Inr [0, 1, 2]) (Inr no_results) loads_results"

text \<open>The status 500 run on an image file that is cut short: it opens, and its pixels
  cannot be read.\<close>

definition world_500_truncated :: "seg_result list world" where
  "world_500_truncated =
     world_500\<lparr>Image_open := \<lambda>p. Inr (Inl (OSError ''image file is truncated''))\<rparr>"


subsection \<open>Chat responses\<close>

text \<open>The \<open>content\<close> of the \<open>message\<close> of a choice, when the choice is an object that has
  a \<open>message\<close> object with a \<open>content\<close> field.\<close>

fun choice_content :: "json \<Rightarrow> json option" where
  "choice_content (JObj ckvs) =
     (case map_of ckvs ''message'' of
        Some (JObj mkvs) \<Rightarrow> map_of mkvs ''content''
      | _ \<Rightarrow> None)"
| "choice_content _ = None"

definition two_choices :: json where
  "two_choices =
     JObj [(''choices'',
            JArr [JObj [(''message'', JObj [(''content'', JStr ''a'')])],
                  JObj [(''message'', JObj [(''content'', JStr ''b'')])]])]"

definition error_reply :: json where
  "error_reply = JObj [(''error'', JObj [(''message'', JStr ''Incorrect API key provided'')])]"

definition bad_choice_reply :: json where
  "bad_choice_reply = JObj [(''choices'', JArr [JObj [(''finish_reason'', JStr ''stop'')]])]"

definition loads_chat :: "string \<Rightarrow> py_error + json" where
  "loads_chat s =
     (if s = ''choices'' then Inr two_choices
      else if s = ''error'' then Inr error_reply
      else if s = ''bad choice'' then Inr bad_choice_reply
      else Inl (JSONDecodeError ''Expecting value''))"

definition world_chat :: "int \<Rightarrow> string \<Rightarrow> json world" where
  "world_chat status reply =
     fixed_world (Inr [0, 1, 2]) (Inr \<lparr>status_code = status, body_text = reply\<rparr>) loads_chat"


text \<open>Two outcomes of \<open>requests.post\<close> that differ at most in the status code of the
  response.\<close>

definition same_but_status :: "py_error + response \<Rightarrow> py_error + response \<Rightarrow> bool" where
  "same_but_status a b =
     (case a of
        Inl e \<Rightarrow> (case b of Inl e' \<Rightarrow> e = e' | Inr r' \<Rightarrow> False)
      | Inr r \<Rightarrow> (case b of Inl e' \<Rightarrow> False | Inr r' \<Rightarrow> body_text r = body_text r'))"

subsection \<open>Labels and masks\<close>

definition four_labels :: "string list" where
  "four_labels = [''road'', ''sky'', ''road'', ''car'']"

definition eleven_labels :: "string list" where
  "eleven_labels = [''wall'', ''building'', ''sky'', ''floor'', ''tree'', ''ceiling'', ''road'',
                    ''bed'', ''window'', ''grass'', ''cabinet'']"

text \<open>The distinct elements of a list, in the order of their first occurrence.\<close>

function first_seen :: "'a list \<Rightarrow> 'a list" where
  "first_seen [] = []"
| "first_seen (x # xs) = x # first_seen (filter (\<lambda>y. y \<noteq> x) xs)"
  by pat_completeness auto
termination
  by (relation "measure length") (auto simp: less_Suc_eq_le)

text \<open>
  An entry is recognized when its mask is a string or an image. \<open>decoded\<close> is the pixel
  grid of a recognized entry whose mask can be read, \<open>entry_ok\<close> says that an entry is
  either unrecognized or decodes to a grid of the given shape, and \<open>covers\<close> that the
  binary mask of an entry is true at row \<open>y\<close>, column \<open>x\<close>.
\<close>

definition recognized :: "seg_result \<Rightarrow> bool" where
  "recognized r = (case get_mask r of MaskOther ty \<Rightarrow> False | _ \<Rightarrow> True)"

definition decoded :: "(string \<Rightarrow> py_error + gray_image) \<Rightarrow> seg_result \<Rightarrow> gray_image option" where
  "decoded mo r =
     (case get_mask r of
        MaskStr s \<Rightarrow> (case mo s of Inl e \<Rightarrow> None | Inr g \<Rightarrow> Some g)
      | MaskImage g \<Rightarrow> Some g
      | MaskOther ty \<Rightarrow> None)"

definition entry_ok :: "(string \<Rightarrow> py_error + gray_image) \<Rightarrow> nat \<Rightarrow> nat \<Rightarrow> seg_result \<Rightarrow> bool" where
  "entry_ok mo h w r =
     (case get_mask r of
        MaskStr s \<Rightarrow> (case mo s of Inl e \<Rightarrow> False | Inr g \<Rightarrow> rect h w g)
      | MaskImage g \<Rightarrow> rect h w g
      | MaskOther ty \<Rightarrow> True)"

definition covers :: "(string \<Rightarrow> py_error + gray_image) \<Rightarrow> nat \<Rightarrow> nat \<Rightarrow> seg_result \<Rightarrow> bool" where
  "covers mo y x r = (case decoded mo r of None \<Rightarrow> False | Some g \<Rightarrow> 128 < g ! y ! x)"

text \<open>The colour a pixel of the overlay must hold, given the map from labels to colours
  and the results that cover the pixel, in input order: black when there is none, else
  the colour of the label of the last one.\<close>

definition expected_pixel :: "label_map \<Rightarrow> seg_result list \<Rightarrow> color option" where
  "expected_pixel l2c cs = (if cs = [] then Some (0, 0, 0) else map_of l2c (get_label (last cs)))"

text \<open>The diagnostic of line 72.\<close>

definition diagnostic :: "seg_result \<Rightarrow> string" where
  "diagnostic r =
     (case get_mask r of
        MaskOther ty \<Rightarrow> ''Unexpected mask type for '' @ get_label r @ '': '' @ ty
      | _ \<Rightarrow> [])"

text \<open>Entries for the examples: a mask that is JSON \<open>null\<close>, an entry without a label, a
  mask with no foreground pixel, a string with no base64 character in it (\<open>b64decode\<close>
  gives no bytes for it and \<open>Image.open\<close> raises), and a base64 string with the decoder
  that reads it and no other string.\<close>

definition null_mask_result :: seg_result where
  "null_mask_result = \<lparr>label = Some ''sky'', mask_field = Some (MaskOther NoneType)\<rparr>"


definition empty_mask_result :: seg_result where
  "empty_mask_result = \<lparr>label = Some ''car'', mask_field = Some (MaskImage [[0, 0], [0, 0]])\<rparr>"


definition road_result :: seg_result where
  "road_result = \<lparr>label = Some ''road'', mask_field = Some (MaskStr ''iVBORw0KGgo='')\<rparr>"

definition left_column_decoder :: "string \<Rightarrow> py_error + gray_image" where
  "left_column_decoder s =
     (if s = ''iVBORw0KGgo='' then Inr [[200, 50], [129, 128]]
      else Inl (ImageError ''cannot identify image file''))"

text \<open>Two lists of results for the 2 by 2 image.\<close>

definition three_results :: "seg_result list" where
  "three_results = [grass_result, null_mask_result, road_result]"

definition legend_results :: "seg_result list" where
  "legend_results = [null_mask_result, empty_mask_result, grass_result, empty_mask_result]"

section \<open>Verified properties\<close>

declare str_nat.simps [simp del]

subsection \<open>Alpha blending\<close>

text \<open>On bytes, line 89 is the integer mean of the two channels, rounded down.\<close>

lemma floor_rat_numeral: "\<lfloor>numeral a / numeral b :: rat\<rfloor> = numeral a div numeral b"
  using floor_divide_of_int_eq [of "numeral a" "numeral b", where ?'a = rat] by simp

lemma half_sum_floor: "\<lfloor>alpha * rat_of_nat m + (1 - alpha) * rat_of_nat n\<rfloor> = int ((m + n) div 2)"
proof -
  have "alpha * rat_of_nat m + (1 - alpha) * rat_of_nat n = rat_of_nat (m + n) / rat_of_nat 2"
    by (simp add: alpha_def field_simps)
  then show ?thesis
    by (simp only: floor_divide_of_nat_eq)
qed

lemma half_sum_nonneg: "0 \<le> alpha * rat_of_nat m + (1 - alpha) * rat_of_nat n"
  by (simp add: alpha_def)

lemma blend_channel_div: "blend_channel a b = word_of_nat ((unat a + unat b) div 2)"
  unfolding blend_channel_def astype_uint8_def
  by (simp only: half_sum_floor half_sum_nonneg if_True word_of_int_nat of_nat_0_le_iff nat_int)

text \<open>The run of the 2 by 2 scenario, for any decoder and output path.\<close>

lemmas seg_defs = plot_segmentation_map_def shape2_def zeros_def
    loop_body_def get_label_def get_mask_def paint_result_def threshold_def assign_color_def
    palette_def paint_def rect_def blend_def

lemma grass_run:
  "plot_segmentation_map mo grass_image [grass_result] path =
     ([''Segmentation map saved as '' @ path],
      Inr \<lparr>blended = [[(165, 62, 87), (165, 62, 87)], [(50, 50, 50), (50, 50, 50)]],
           legend = [(''grass'', (230, 25, 75))], saved_as = path\<rparr>)"
  by (simp add: seg_defs grass_image_def grass_result_def blend_channel_div)

text \<open>
  Claim C1 as stated: in the 2 by 2 scenario the top row of the blended image is
  \<open>round(0.5 * 100 + 0.5 * c)\<close> for each channel \<open>c\<close> of \<open>palette[0]\<close>, which is
  \<open>(230, 25, 75)\<close>. The code gives \<open>(165, 62, 87)\<close>; rounding \<open>62.5\<close> and \<open>87.5\<close>
  gives \<open>(165, 62, 88)\<close> with Python's \<open>round\<close> and \<open>(165, 63, 88)\<close> when halves go up.
  The blue channel differs under both.
\<close>

theorem C1_counterexample:
  "snd (plot_segmentation_map no_decoder grass_image [grass_result] ''segmentation_map.png'') =
     Inr \<lparr>blended = [[(165, 62, 87), (165, 62, 87)], [(50, 50, 50), (50, 50, 50)]],
          legend = [(''grass'', (230, 25, 75))], saved_as = ''segmentation_map.png''\<rparr>
   \<and> spec_pixel py_round (100, 100, 100) (palette ! 0) = (165, 62, 88)
   \<and> spec_pixel round (100, 100, 100) (palette ! 0) = (165, 63, 88)
   \<and> (165, 62, 87) \<noteq> spec_pixel py_round (100, 100, 100) (palette ! 0)
   \<and> (165, 62, 87) \<noteq> spec_pixel round (100, 100, 100) (palette ! 0)"
  by (simp add: grass_run palette_def spec_channel_def py_round_def Let_def round_def floor_rat_numeral)

text \<open>
  Claim C1, amended: in the 2 by 2 scenario (every pixel 100, one result labelled
  \<open>grass\<close> whose mask marks the top row) the blending step gives top-row pixels equal to
  the floor of \<open>0.5 * 100 + 0.5 * c\<close> for each channel \<open>c\<close> of \<open>palette[0]\<close>, that is
  \<open>(165, 62, 87)\<close>, and bottom-row pixels equal to the floor of \<open>0.5 * 100 + 0.5 * 0\<close>,
  that is 50.
\<close>

theorem C1_blend_truncates:
  "snd (plot_segmentation_map mo grass_image [grass_result] path) =
     Inr \<lparr>blended =
            [[spec_pixel floor (100, 100, 100) (palette ! 0), spec_pixel floor (100, 100, 100) (palette ! 0)],
             [spec_pixel floor (100, 100, 100) (0, 0, 0), spec_pixel floor (100, 100, 100) (0, 0, 0)]],
          legend = [(''grass'', palette ! 0)], saved_as = path\<rparr>
   \<and> spec_pixel floor (100, 100, 100) (palette ! 0) = (165, 62, 87)
   \<and> spec_pixel floor (100, 100, 100) (0, 0, 0) = (50, 50, 50)"
  by (simp add: grass_run palette_def spec_channel_def floor_rat_numeral)


subsection \<open>query_image\<close>

lemma str_int_500: "str_int 500 = ''500''"
  by (simp add: str_int_def str_nat.simps digit_def)

text \<open>
  Claim C2: when the image file is read and a response arrives, a status code other than
  200 makes \<open>query_image\<close> raise an \<open>Exception\<close> whose message contains the status code
  in decimal and the response text, and the script prints that message and exits with
  code 1; with status code 200 \<open>query_image\<close> returns what \<open>response.json()\<close> returns.
\<close>

theorem C2_query_image:
  assumes "open_rb w image_path = Inr image_bytes"
    and "requests_post w \<lparr>url = API_URL, headers = seg_headers w, payload = DataBody image_bytes\<rparr> = Inr resp"
  shows "(status_code resp \<noteq> 200 \<longrightarrow>
            query_image w image_path =
              Inl (Exception (''Request failed: '' @ str_int (status_code resp) @ '', '' @ body_text resp))
            \<and> (\<exists>msg. query_image w image_path = Inl (Exception msg)
                  \<and> sublist (str_int (status_code resp)) msg \<and> sublist (body_text resp) msg)
            \<and> (image_path = ''image-of-road.jpg'' \<longrightarrow> Image_open w image_path = Inr img \<longrightarrow>
                 main_seg w =
                   \<lparr>stdout = [''Request failed: '' @ str_int (status_code resp) @ '', '' @ body_text resp],
                    exit_code = 1, uncaught = None\<rparr>))
       \<and> (status_code resp = 200 \<longrightarrow> query_image w image_path = json_loads w (body_text resp))"
proof -
  let ?msg = "''Request failed: '' @ str_int (status_code resp) @ '', '' @ body_text resp"
  have q: "status_code resp \<noteq> 200 \<Longrightarrow> query_image w image_path = Inl (Exception ?msg)"
    using assms by (simp add: query_image_def)
  have s1: "sublist (str_int (status_code resp)) ?msg"
    by (rule sublist_appendI)
  have "?msg = (''Request failed: '' @ str_int (status_code resp) @ '', '') @ body_text resp @ []"
    by simp
  then have s2: "sublist (body_text resp) ?msg"
    by (metis sublist_appendI)
  have m: "status_code resp \<noteq> 200 \<Longrightarrow> image_path = ''image-of-road.jpg'' \<Longrightarrow> Image_open w image_path = Inr img \<Longrightarrow>
      main_seg w = \<lparr>stdout = [?msg], exit_code = 1, uncaught = None\<rparr>"
    using q by (simp add: main_seg_def sys_exit_def)
  have ok: "status_code resp = 200 \<Longrightarrow> query_image w image_path = json_loads w (body_text resp)"
    using assms by (simp add: query_image_def)
  from q s1 s2 m ok show ?thesis by blast
qed

text \<open>The scenario of the specification: status 500 with body \<open>server error\<close>, also on
  an image file whose pixels cannot be read; and a status 200 response with an empty
  list of results.\<close>

theorem C2_query_image_witness:
  "main_seg world_500 = \<lparr>stdout = [''Request failed: 500, server error''], exit_code = 1, uncaught = None\<rparr>
   \<and> query_image world_500 ''image-of-road.jpg'' = Inl (Exception ''Request failed: 500, server error'')
   \<and> sublist ''500'' ''Request failed: 500, server error''
   \<and> sublist ''server error'' ''Request failed: 500, server error''
   \<and> query_image world_200 ''image-of-road.jpg'' = Inr []
   \<and> main_seg world_500_truncated =
       \<lparr>stdout = [''Request failed: 500, server error''], exit_code = 1, uncaught = None\<rparr>"
proof -
  have ot: "open_rb world_500_truncated ''image-of-road.jpg'' = Inr [0, 1, 2]"
    by (simp add: world_500_truncated_def world_500_def fixed_world_def)
  have pt: "requests_post world_500_truncated
      \<lparr>url = API_URL, headers = seg_headers world_500_truncated, payload = DataBody [0, 1, 2]\<rparr>
      = Inr server_error"
    by (simp add: world_500_truncated_def world_500_def fixed_world_def)
  have it: "Image_open world_500_truncated ''image-of-road.jpg'' = Inr (Inl (OSError ''image file is truncated''))"
    by (simp add: world_500_truncated_def)
  have o5: "open_rb world_500 ''image-of-road.jpg'' = Inr [0, 1, 2]"
    by (simp add: world_500_def fixed_world_def)
  have p5: "requests_post world_500 \<lparr>url = API_URL, headers = seg_headers world_500, payload = DataBody [0, 1, 2]\<rparr>
      = Inr server_error"
    by (simp add: world_500_def fixed_world_def)
  have i5: "Image_open world_500 ''image-of-road.jpg'' = Inr (Inr grass_image)"
    by (simp add: world_500_def fixed_world_def)
  have o2: "open_rb world_200 ''image-of-road.jpg'' = Inr [0, 1, 2]"
    by (simp add: world_200_def fixed_world_def)
  have p2: "requests_post world_200 \<lparr>url = API_URL, headers = seg_headers world_200, payload = DataBody [0, 1, 2]\<rparr>
      = Inr no_results"
    by (simp add: world_200_def fixed_world_def)
  have l2: "json_loads world_200 (body_text no_results) = Inr []"
    by (simp add: world_200_def fixed_world_def no_results_def loads_results_def)
  have st: "status_code server_error \<noteq> 200" "status_code no_results = 200"
    by (simp_all add: server_error_def no_results_def)
  have msg: "''Request failed: '' @ str_int (status_code server_error) @ '', '' @ body_text server_error
      = ''Request failed: 500, server error''"
    by (simp add: server_error_def str_int_500)
  have t: "str_int (status_code server_error) = ''500''" "body_text server_error = ''server error''"
    by (simp_all add: server_error_def str_int_500)
  from C2_query_image [OF o5 p5, of "Inr grass_image"] C2_query_image [OF o2 p2, of "Inr grass_image"]
    C2_query_image [OF ot pt, of "Inl (OSError ''image file is truncated'')"] st i5 it l2
  show ?thesis
    unfolding msg t by auto
qed


subsection \<open>read_content\<close>

lemma choice_content_message: "choice_content c = Some v \<Longrightarrow> message_content c = Inr v"
  by (cases c) (auto simp: message_content_def split: option.splits json.splits)

lemma comprehension_contents:
  "map choice_content cs = map Some vs \<Longrightarrow> comprehension message_content cs = Inr vs"
proof (induction cs arbitrary: vs)
  case Nil
  then show ?case by simp
next
  case (Cons c cs)
  then obtain v vs' where vs: "vs = v # vs'" "choice_content c = Some v"
      "map choice_content cs = map Some vs'"
    by (cases vs) auto
  with Cons.IH [of vs'] show ?case
    by (simp add: choice_content_message)
qed

text \<open>
  Claim C3: on a response object without a \<open>choices\<close> key \<open>read_content\<close> returns the
  empty list; on a response object whose \<open>choices\<close> is a list of choices that each have
  \<open>message.content\<close> it returns exactly those contents, in the order of the choices.
\<close>

theorem C3_read_content:
  "(''choices'' \<notin> fst ` set kvs \<longrightarrow> read_content (JObj kvs) = Inr [])
   \<and> (map_of kvs ''choices'' = Some (JArr cs) \<longrightarrow> map choice_content cs = map Some vs \<longrightarrow>
        read_content (JObj kvs) = Inr vs)"
proof (intro conjI impI)
  assume "''choices'' \<notin> fst ` set kvs"
  then show "read_content (JObj kvs) = Inr []"
    by (simp add: read_content_def)
next
  assume m: "map_of kvs ''choices'' = Some (JArr cs)"
    and c: "map choice_content cs = map Some vs"
  from m have "''choices'' \<in> fst ` set kvs"
    by (metis map_of_eq_None_iff option.distinct(1))
  with m comprehension_contents [OF c] show "read_content (JObj kvs) = Inr vs"
    by (simp add: read_content_def)
qed

text \<open>An error reply without \<open>choices\<close>, and the two choices \<open>a\<close> and \<open>b\<close>.\<close>

theorem C3_read_content_witness:
  "read_content error_reply = Inr [] \<and> read_content two_choices = Inr [JStr ''a'', JStr ''b'']"
proof -
  have a: "''choices'' \<notin> fst ` set [(''error'', JObj [(''message'', JStr ''Incorrect API key provided'')])]"
    by simp
  have b: "map_of [(''choices'',
            JArr [JObj [(''message'', JObj [(''content'', JStr ''a'')])],
                  JObj [(''message'', JObj [(''content'', JStr ''b'')])]])] ''choices''
      = Some (JArr [JObj [(''message'', JObj [(''content'', JStr ''a'')])],
                  JObj [(''message'', JObj [(''content'', JStr ''b'')])]])"
    by simp
  have c: "map choice_content [JObj [(''message'', JObj [(''content'', JStr ''a'')])],
                  JObj [(''message'', JObj [(''content'', JStr ''b'')])]] = map Some [JStr ''a'', JStr ''b'']"
    by simp
  from C3_read_content [of "[(''error'', JObj [(''message'', JStr ''Incorrect API key provided'')])]" cs vs] a
  have 1: "read_content error_reply = Inr []"
    unfolding error_reply_def by blast
  from C3_read_content [of _ _ "[JStr ''a'', JStr ''b'']"] b c
  have 2: "read_content two_choices = Inr [JStr ''a'', JStr ''b'']"
    unfolding two_choices_def by blast
  from 1 2 show ?thesis ..
qed


subsection \<open>Colour assignment\<close>

lemma length_palette: "length palette = 10"
  by (simp add: palette_def)

lemma assign_color_new:
  "lbl \<notin> fst ` set m \<Longrightarrow> assign_color m lbl = m @ [(lbl, palette ! (length m mod 10))]"
  by (simp add: assign_color_def length_palette)

lemma assign_color_old: "lbl \<in> fst ` set m \<Longrightarrow> assign_color m lbl = m"
  by (simp add: assign_color_def)

lemma foldl_assign_distinct:
  "distinct ls \<Longrightarrow> set ls \<inter> fst ` set m = {} \<Longrightarrow>
   foldl assign_color m ls =
     m @ zip ls (map (\<lambda>i. palette ! (i mod 10)) [length m ..< length m + length ls])"
proof (induction ls rule: rev_induct)
  case Nil
  then show ?case by simp
next
  case (snoc x ls)
  let ?cs = "map (\<lambda>i. palette ! (i mod 10)) [length m ..< length m + length ls]"
  from snoc have IH: "foldl assign_color m ls = m @ zip ls ?cs"
    by auto
  have keys: "fst ` set (m @ zip ls ?cs) = fst ` set m \<union> set ls"
  proof -
    have "map fst (zip ls ?cs) = ls" by simp
    then have "fst ` set (zip ls ?cs) = set ls" by (metis set_map)
    then show ?thesis by (simp add: image_Un)
  qed
  from snoc.prems have "x \<notin> fst ` set (m @ zip ls ?cs)"
    unfolding keys by auto
  then have "assign_color (m @ zip ls ?cs) x =
      (m @ zip ls ?cs) @ [(x, palette ! (length (m @ zip ls ?cs) mod 10))]"
    by (rule assign_color_new)
  moreover have "length (m @ zip ls ?cs) = length m + length ls" by simp
  moreover have "zip (ls @ [x]) (map (\<lambda>i. palette ! (i mod 10)) [length m ..< length m + length (ls @ [x])])
      = zip ls ?cs @ [(x, palette ! ((length m + length ls) mod 10))]"
    by simp
  ultimately show ?case
    using IH by simp
qed

lemma foldl_assign_nth:
  assumes "distinct ls" "i < length ls"
  shows "map_of (foldl assign_color [] ls) (ls ! i) = Some (palette ! (i mod 10))"
proof -
  let ?cs = "map (\<lambda>i. palette ! (i mod 10)) [0 ..< length ls]"
  have "foldl assign_color [] ls = zip ls ?cs"
    using foldl_assign_distinct [of ls "[]"] assms(1) by simp
  moreover have "map_of (zip ls ?cs) (ls ! i) = Some (?cs ! i)"
    using assms by (intro map_of_zip_nth) simp_all
  ultimately show ?thesis using assms(2) by simp
qed

text \<open>
  Claim C4: the first sighting of a label receives the palette entry at the number of
  labels already in the map, modulo 10, and a later sighting leaves the map and the
  colour of the label unchanged. For the labels \<open>road, sky, road, car\<close> three colours
  are allocated, all distinct, and \<open>road\<close> keeps the first one. For any list of more
  than 10 distinct labels, the 11th label receives the colour of the 1st.
\<close>

theorem C4_assign_color:
  "(lbl \<notin> fst ` set m \<longrightarrow>
      assign_color m lbl = m @ [(lbl, palette ! (length m mod 10))])
   \<and> (map_of m lbl = Some c \<longrightarrow>
      assign_color m lbl = m \<and> map_of (assign_color m lbl) lbl = Some c)
   \<and> foldl assign_color [] four_labels =
       [(''road'', palette ! 0), (''sky'', palette ! 1), (''car'', palette ! 2)]
   \<and> distinct (map snd (foldl assign_color [] four_labels))
   \<and> length (foldl assign_color [] four_labels) = 3
   \<and> (distinct ls \<longrightarrow> 10 < length ls \<longrightarrow>
        map_of (foldl assign_color [] ls) (ls ! 10) = map_of (foldl assign_color [] ls) (ls ! 0)
        \<and> map_of (foldl assign_color [] ls) (ls ! 0) = Some (palette ! 0))"
proof -
  have 1: "lbl \<notin> fst ` set m \<longrightarrow> assign_color m lbl = m @ [(lbl, palette ! (length m mod 10))]"
    by (simp add: assign_color_new)
  have 2: "map_of m lbl = Some c \<longrightarrow> assign_color m lbl = m \<and> map_of (assign_color m lbl) lbl = Some c"
  proof
    assume s: "map_of m lbl = Some c"
    then have "lbl \<in> fst ` set m"
      by (metis map_of_eq_None_iff option.distinct(1))
    then have "assign_color m lbl = m" by (rule assign_color_old)
    with s show "assign_color m lbl = m \<and> map_of (assign_color m lbl) lbl = Some c" by simp
  qed
  have 3: "foldl assign_color [] four_labels =
       [(''road'', palette ! 0), (''sky'', palette ! 1), (''car'', palette ! 2)]"
    by (simp add: four_labels_def assign_color_def length_palette numeral_2_eq_2)
  have 4: "distinct (map snd (foldl assign_color [] four_labels))"
    unfolding 3 by (simp add: palette_def)
  have 5: "length (foldl assign_color [] four_labels) = 3"
    unfolding 3 by simp
  have 6: "distinct ls \<longrightarrow> 10 < length ls \<longrightarrow>
        map_of (foldl assign_color [] ls) (ls ! 10) = map_of (foldl assign_color [] ls) (ls ! 0)
        \<and> map_of (foldl assign_color [] ls) (ls ! 0) = Some (palette ! 0)"
  proof (intro impI)
    assume d: "distinct ls" and l: "10 < length ls"
    from l have l0: "0 < length ls" by linarith
    have a: "map_of (foldl assign_color [] ls) (ls ! 10) = Some (palette ! 0)"
      using foldl_assign_nth [OF d l] by simp
    have b: "map_of (foldl assign_color [] ls) (ls ! 0) = Some (palette ! 0)"
      using foldl_assign_nth [OF d l0] by simp
    from a b show "map_of (foldl assign_color [] ls) (ls ! 10) = map_of (foldl assign_color [] ls) (ls ! 0)
        \<and> map_of (foldl assign_color [] ls) (ls ! 0) = Some (palette ! 0)"
      by simp
  qed
  from 1 2 3 4 5 6 show ?thesis by blast
qed

text \<open>A first and a second sighting of \<open>road\<close>, and eleven distinct labels.\<close>

theorem C4_assign_color_witness:
  "assign_color [] ''road'' = [(''road'', (230, 25, 75))]
   \<and> assign_color [(''road'', (230, 25, 75))] ''road'' = [(''road'', (230, 25, 75))]
   \<and> map_of (foldl assign_color [] eleven_labels) ''cabinet'' = Some (230, 25, 75)
   \<and> map_of (foldl assign_color [] eleven_labels) ''wall'' = Some (230, 25, 75)"
proof -
  have a: "''road'' \<notin> fst ` set ([] :: label_map)" by simp
  have b: "map_of [(''road'', (230, 25, 75) :: color)] ''road'' = Some (230, 25, 75)" by simp
  have d: "distinct eleven_labels" "10 < length eleven_labels"
    "eleven_labels ! 10 = ''cabinet''" "eleven_labels ! 0 = ''wall''"
    by (simp_all add: eleven_labels_def)
  have p: "palette ! 0 = (230, 25, 75)" by (simp add: palette_def)
  from C4_assign_color [of "''road''" "[]" c eleven_labels] a
  have 1: "assign_color [] ''road'' = [(''road'', (230, 25, 75))]"
    by (simp add: p)
  from C4_assign_color [of "''road''" "[(''road'', (230, 25, 75))]" "(230, 25, 75)" eleven_labels] b
  have 2: "assign_color [(''road'', (230, 25, 75))] ''road'' = [(''road'', (230, 25, 75))]"
    by blast
  from C4_assign_color [of "''road''" "[]" c eleven_labels] d
  have 3: "map_of (foldl assign_color [] eleven_labels) ''cabinet'' = Some (230, 25, 75)"
    "map_of (foldl assign_color [] eleven_labels) ''wall'' = Some (230, 25, 75)"
    by (simp_all add: p)
  from 1 2 3 show ?thesis by blast
qed

subsection \<open>The overlay\<close>

text \<open>Shapes of the arrays, and what painting and one iteration do to them.\<close>

lemma rect_nth: "rect h w a \<Longrightarrow> y < h \<Longrightarrow> length (a ! y) = w"
  by (auto simp: rect_def list_all_length)

lemma rect_zeros: "rect h w (zeros h w)"
  by (simp add: rect_def zeros_def list_all_length)

lemma zeros_nth: "y < h \<Longrightarrow> x < w \<Longrightarrow> zeros h w ! y ! x = (0, 0, 0)"
  by (simp add: zeros_def)

lemma shape2_zeros: "shape2 orig = (h, w) \<Longrightarrow> shape2 (zeros h w) = (h, w)"
  by (cases orig; cases h) (auto simp: shape2_def zeros_def)

lemma rect_threshold: "rect h w g \<Longrightarrow> rect h w (threshold g)"
  by (simp add: rect_def threshold_def list_all_length)

lemma threshold_nth:
  "rect h w g \<Longrightarrow> y < h \<Longrightarrow> x < w \<Longrightarrow> threshold g ! y ! x = (128 < g ! y ! x)"
  by (simp add: threshold_def rect_def list_all_length)

lemma paint_ok:
  assumes "shape2 ov = (h, w)" "rect h w ov" "rect h w bm"
  shows "\<exists>ov'. paint ov bm c = Inr ov' \<and> shape2 ov' = (h, w) \<and> rect h w ov'
           \<and> (\<forall>y<h. \<forall>x<w. ov' ! y ! x = (if bm ! y ! x then c else ov ! y ! x))"
proof -
  let ?ov' = "map2 (\<lambda>orow mrow. map2 (\<lambda>px m. if m then c else px) orow mrow) ov bm"
  have p: "paint ov bm c = Inr ?ov'"
    using assms by (simp add: paint_def)
  have len: "length ov = h" "length bm = h"
    using assms by (simp_all add: rect_def)
  have rows: "\<And>y. y < h \<Longrightarrow> length (ov ! y) = w \<and> length (bm ! y) = w"
    using assms by (simp add: rect_nth)
  have r: "rect h w ?ov'"
    using len rows by (simp add: rect_def list_all_length)
  have s: "shape2 ?ov' = (h, w)"
  proof (cases h)
    case 0
    with assms(1) len show ?thesis by (simp add: shape2_def)
  next
    case (Suc n)
    with len obtain o1 os b1 bs where e: "ov = o1 # os" "bm = b1 # bs"
      by (cases ov; cases bm) auto
    from rows [of 0] Suc e have "length o1 = w" "length b1 = w" by auto
    with e len show ?thesis by (simp add: shape2_def)
  qed
  have n: "\<forall>y<h. \<forall>x<w. ?ov' ! y ! x = (if bm ! y ! x then c else ov ! y ! x)"
    using len rows by simp
  from p r s n show ?thesis by blast
qed

lemma map_of_assign_color_stable:
  "map_of m k = Some c \<Longrightarrow> map_of (assign_color m lbl) k = Some c"
  by (simp add: assign_color_def map_add_def)

lemma map_of_assign_color_self: "\<exists>c. map_of (assign_color m lbl) lbl = Some c"
proof (cases "lbl \<in> fst ` set m")
  case True
  then obtain c where "map_of m lbl = Some c"
    by (metis map_of_eq_None_iff not_Some_eq)
  with True have "map_of (assign_color m lbl) lbl = Some c" by (simp add: assign_color_def)
  then show ?thesis ..
next
  case False
  then have "map_of m lbl = None" by (simp add: map_of_eq_None_iff)
  with False have "map_of (assign_color m lbl) lbl = Some (palette ! (length m mod length palette))"
    by (simp add: assign_color_def map_add_def)
  then show ?thesis ..
qed

lemma paint_result_ok:
  assumes "shape2 (overlay st) = (h, w)" "rect h w (overlay st)" "rect h w g"
  shows "\<exists>st' c. paint_result st lbl g = Inr st'
           \<and> label_to_color st' = assign_color (label_to_color st) lbl
           \<and> map_of (label_to_color st') lbl = Some c
           \<and> shape2 (overlay st') = (h, w) \<and> rect h w (overlay st')
           \<and> (\<forall>y<h. \<forall>x<w. overlay st' ! y ! x = (if 128 < g ! y ! x then c else overlay st ! y ! x))"
proof -
  obtain c where c: "map_of (assign_color (label_to_color st) lbl) lbl = Some c"
    using map_of_assign_color_self by blast
  from paint_ok [OF assms(1,2) rect_threshold [OF assms(3)], of c]
  obtain ov' where ov: "paint (overlay st) (threshold g) c = Inr ov'" "shape2 ov' = (h, w)" "rect h w ov'"
      "\<forall>y<h. \<forall>x<w. ov' ! y ! x = (if threshold g ! y ! x then c else overlay st ! y ! x)"
    by blast
  let ?st' = "\<lparr>overlay = ov', label_to_color = assign_color (label_to_color st) lbl\<rparr>"
  have 1: "paint_result st lbl g = Inr ?st'"
    using c ov(1) by (simp add: paint_result_def)
  have 2: "\<forall>y<h. \<forall>x<w. overlay ?st' ! y ! x = (if 128 < g ! y ! x then c else overlay st ! y ! x)"
    using ov(4) threshold_nth [OF assms(3)] by simp
  have 3: "label_to_color ?st' = assign_color (label_to_color st) lbl"
    "map_of (label_to_color ?st') lbl = Some c"
    "shape2 (overlay ?st') = (h, w)" "rect h w (overlay ?st')"
    using c ov(2,3) by simp_all
  from 1 2 3 show ?thesis by blast
qed


lemma loop_body_unrecognized: "\<not> recognized r \<Longrightarrow> loop_body mo st r = ([diagnostic r], Inr st)"
  by (cases "get_mask r") (simp_all add: recognized_def loop_body_def diagnostic_def)

lemma loop_body_decoded:
  "decoded mo r = Some g \<Longrightarrow> loop_body mo st r = ([], paint_result st (get_label r) g)"
  by (cases "get_mask r") (auto simp: decoded_def loop_body_def split: sum.splits)

lemma entry_ok_cases:
  assumes "entry_ok mo h w r"
  obtains (skip) "\<not> recognized r" "decoded mo r = None"
    | (paint) g where "recognized r" "decoded mo r = Some g" "rect h w g"
  using assms
  by (cases "get_mask r") (auto simp: entry_ok_def recognized_def decoded_def split: sum.splits)

lemma covers_decoded: "decoded mo r = Some g \<Longrightarrow> covers mo y x r \<longleftrightarrow> 128 < g ! y ! x"
  by (simp add: covers_def)

lemma covers_undecoded: "decoded mo r = None \<Longrightarrow> \<not> covers mo y x r"
  by (simp add: covers_def)

text \<open>
  The invariant of the loop, from any state whose overlay has the shape of the image:
  the run ends normally, the overlay keeps its shape, the map from labels to colours
  grows by \<open>assign_color\<close> over the labels of the recognized entries and never changes
  a colour, the printed lines are the diagnostics of the other entries, and each pixel
  holds its old value or the colour of the last entry that covers it.
\<close>

lemma loop_invariant:
  assumes "shape2 (overlay st0) = (h, w)" "rect h w (overlay st0)" "list_all (entry_ok mo h w) rs"
  shows "\<exists>out st. loop mo st0 rs = (out, Inr st)
           \<and> shape2 (overlay st) = (h, w) \<and> rect h w (overlay st)
           \<and> label_to_color st =
               foldl assign_color (label_to_color st0) (map get_label (filter recognized rs))
           \<and> out = map diagnostic (filter (\<lambda>r. \<not> recognized r) rs)
           \<and> (\<forall>k c. map_of (label_to_color st0) k = Some c \<longrightarrow> map_of (label_to_color st) k = Some c)
           \<and> (\<forall>y<h. \<forall>x<w.
                 (if filter (covers mo y x) rs = [] then Some (overlay st0 ! y ! x)
                  else map_of (label_to_color st) (get_label (last (filter (covers mo y x) rs))))
                 = Some (overlay st ! y ! x))"
  using assms
proof (induction rs arbitrary: st0)
  case Nil
  then show ?case by simp
next
  case (Cons r rs)
  from Cons.prems(3) have ok: "entry_ok mo h w r" and oks: "list_all (entry_ok mo h w) rs"
    by simp_all
  from ok show ?case
  proof (cases rule: entry_ok_cases)
    case skip
    from Cons.IH [OF Cons.prems(1,2) oks]
    obtain out st where IH: "loop mo st0 rs = (out, Inr st)"
        "shape2 (overlay st) = (h, w)" "rect h w (overlay st)"
        "label_to_color st = foldl assign_color (label_to_color st0) (map get_label (filter recognized rs))"
        "out = map diagnostic (filter (\<lambda>r. \<not> recognized r) rs)"
        "\<forall>k c. map_of (label_to_color st0) k = Some c \<longrightarrow> map_of (label_to_color st) k = Some c"
        "\<forall>y<h. \<forall>x<w.
           (if filter (covers mo y x) rs = [] then Some (overlay st0 ! y ! x)
            else map_of (label_to_color st) (get_label (last (filter (covers mo y x) rs))))
           = Some (overlay st ! y ! x)"
      by blast
    have l: "loop mo st0 (r # rs) = (diagnostic r # out, Inr st)"
      using loop_body_unrecognized [OF skip(1)] IH(1) by simp
    have f: "\<And>y x. filter (covers mo y x) (r # rs) = filter (covers mo y x) rs"
      using covers_undecoded [OF skip(2)] by simp
    have m: "label_to_color st =
        foldl assign_color (label_to_color st0) (map get_label (filter recognized (r # rs)))"
      using IH(4) skip(1) by simp
    have d: "diagnostic r # out = map diagnostic (filter (\<lambda>r. \<not> recognized r) (r # rs))"
      using IH(5) skip(1) by simp
    show ?thesis
      unfolding f
      by (rule exI [of _ "diagnostic r # out"], rule exI [of _ st])
         (intro conjI l m d IH(2) IH(3) IH(6) IH(7))
  next
    case (paint g)
    from paint_result_ok [OF Cons.prems(1,2) paint(3), of "get_label r"]
    obtain st1 c where st1: "paint_result st0 (get_label r) g = Inr st1"
        "label_to_color st1 = assign_color (label_to_color st0) (get_label r)"
        "map_of (label_to_color st1) (get_label r) = Some c"
        "shape2 (overlay st1) = (h, w)" "rect h w (overlay st1)"
        "\<forall>y<h. \<forall>x<w. overlay st1 ! y ! x = (if 128 < g ! y ! x then c else overlay st0 ! y ! x)"
      by blast
    from Cons.IH [OF st1(4,5) oks]
    obtain out st where IH: "loop mo st1 rs = (out, Inr st)"
        "shape2 (overlay st) = (h, w)" "rect h w (overlay st)"
        "label_to_color st = foldl assign_color (label_to_color st1) (map get_label (filter recognized rs))"
        "out = map diagnostic (filter (\<lambda>r. \<not> recognized r) rs)"
        "\<forall>k c. map_of (label_to_color st1) k = Some c \<longrightarrow> map_of (label_to_color st) k = Some c"
        "\<forall>y<h. \<forall>x<w.
           (if filter (covers mo y x) rs = [] then Some (overlay st1 ! y ! x)
            else map_of (label_to_color st) (get_label (last (filter (covers mo y x) rs))))
           = Some (overlay st ! y ! x)"
      by blast
    have l: "loop mo st0 (r # rs) = (out, Inr st)"
      using loop_body_decoded [OF paint(2)] st1(1) IH(1) by simp
    have m: "label_to_color st =
        foldl assign_color (label_to_color st0) (map get_label (filter recognized (r # rs)))"
      using IH(4) st1(2) paint(1) by simp
    have d: "out = map diagnostic (filter (\<lambda>r. \<not> recognized r) (r # rs))"
      using IH(5) paint(1) by simp
    have s: "\<forall>k c. map_of (label_to_color st0) k = Some c \<longrightarrow> map_of (label_to_color st) k = Some c"
      using IH(6) st1(2) map_of_assign_color_stable by metis
    have lc: "map_of (label_to_color st) (get_label r) = Some c"
      using IH(6) st1(3) by blast
    have px: "\<forall>y<h. \<forall>x<w.
           (if filter (covers mo y x) (r # rs) = [] then Some (overlay st0 ! y ! x)
            else map_of (label_to_color st) (get_label (last (filter (covers mo y x) (r # rs)))))
           = Some (overlay st ! y ! x)"
    proof (intro allI impI)
      fix y x
      assume yx: "y < h" "x < w"
      let ?cs = "filter (covers mo y x) rs"
      from IH(7) yx have tail: "(if ?cs = [] then Some (overlay st1 ! y ! x)
            else map_of (label_to_color st) (get_label (last ?cs))) = Some (overlay st ! y ! x)"
        by blast
      from st1(6) yx have here: "overlay st1 ! y ! x = (if 128 < g ! y ! x then c else overlay st0 ! y ! x)"
        by blast
      show "(if filter (covers mo y x) (r # rs) = [] then Some (overlay st0 ! y ! x)
            else map_of (label_to_color st) (get_label (last (filter (covers mo y x) (r # rs)))))
           = Some (overlay st ! y ! x)"
      proof (cases "covers mo y x r")
        case True
        then have g: "128 < g ! y ! x" using covers_decoded [OF paint(2)] by simp
        show ?thesis
        proof (cases "?cs = []")
          case True
          with tail here g have "overlay st ! y ! x = c" by simp
          with True \<open>covers mo y x r\<close> lc show ?thesis by simp
        next
          case False
          with tail \<open>covers mo y x r\<close> show ?thesis by simp
        qed
      next
        case False
        then have g: "\<not> 128 < g ! y ! x" using covers_decoded [OF paint(2)] by simp
        with tail here False show ?thesis by (simp split: if_splits)
      qed
    qed
    show ?thesis
      by (rule exI [of _ out], rule exI [of _ st]) (intro conjI l m d s px IH(2) IH(3))
  qed
qed

lemma blend_nth:
  "rect h w a \<Longrightarrow> rect h w b \<Longrightarrow> y < h \<Longrightarrow> x < w \<Longrightarrow>
   blend a b ! y ! x = blend_pixel (a ! y ! x) (b ! y ! x)"
  by (simp add: blend_def rect_def list_all_length)

lemma plot_of_loop:
  "shape2 orig_np = (h, w) \<Longrightarrow>
   loop mo \<lparr>overlay = zeros h w, label_to_color = []\<rparr> rs = (out, Inr st) \<Longrightarrow>
   plot_segmentation_map mo orig_np rs path =
     (out @ [''Segmentation map saved as '' @ path],
      Inr \<lparr>blended = blend orig_np (overlay st), legend = label_to_color st, saved_as = path\<rparr>)"
  by (simp add: plot_segmentation_map_def)

text \<open>
  Claim C5: the overlay has the height and width of the original image and starts all
  black; when every recognized mask decodes to the shape of the image, the loop ends
  normally and each pixel of the overlay holds the colour assigned to the label of the
  last result, in input order, whose binary mask is true there, or black when there is
  none. The figure is the blend of the original image with that final overlay, pixel by
  pixel, and nothing else is blended.
\<close>

theorem C5_overlay_last_wins:
  assumes "shape2 orig_np = (h, w)" and "rect h w orig_np" and "list_all (entry_ok mo h w) rs"
  shows "\<exists>out st.
      loop mo \<lparr>overlay = zeros h w, label_to_color = []\<rparr> rs = (out, Inr st)
    \<and> plot_segmentation_map mo orig_np rs path =
        (out @ [''Segmentation map saved as '' @ path],
         Inr \<lparr>blended = blend orig_np (overlay st), legend = label_to_color st, saved_as = path\<rparr>)
    \<and> rect h w (overlay st)
    \<and> (\<forall>y<h. \<forall>x<w.
          zeros h w ! y ! x = (0, 0, 0)
        \<and> expected_pixel (label_to_color st) (filter (covers mo y x) rs) = Some (overlay st ! y ! x)
        \<and> blend orig_np (overlay st) ! y ! x = blend_pixel (orig_np ! y ! x) (overlay st ! y ! x))"
proof -
  let ?st0 = "\<lparr>overlay = zeros h w, label_to_color = []\<rparr>"
  have s0: "shape2 (overlay ?st0) = (h, w)" "rect h w (overlay ?st0)"
    using shape2_zeros [OF assms(1)] rect_zeros by simp_all
  from loop_invariant [OF s0 assms(3)]
  obtain out st where l: "loop mo ?st0 rs = (out, Inr st)"
      and r: "rect h w (overlay st)"
      and px: "\<forall>y<h. \<forall>x<w.
                 (if filter (covers mo y x) rs = [] then Some (overlay ?st0 ! y ! x)
                  else map_of (label_to_color st) (get_label (last (filter (covers mo y x) rs))))
                 = Some (overlay st ! y ! x)"
    by blast
  have p: "plot_segmentation_map mo orig_np rs path =
        (out @ [''Segmentation map saved as '' @ path],
         Inr \<lparr>blended = blend orig_np (overlay st), legend = label_to_color st, saved_as = path\<rparr>)"
    by (rule plot_of_loop [OF assms(1) l])
  have q: "\<forall>y<h. \<forall>x<w.
          zeros h w ! y ! x = (0, 0, 0)
        \<and> expected_pixel (label_to_color st) (filter (covers mo y x) rs) = Some (overlay st ! y ! x)
        \<and> blend orig_np (overlay st) ! y ! x = blend_pixel (orig_np ! y ! x) (overlay st ! y ! x)"
  proof (intro allI impI conjI)
    fix y x
    assume yx: "y < h" "x < w"
    show z: "zeros h w ! y ! x = (0, 0, 0)"
      using yx by (rule zeros_nth)
    from px yx have "(if filter (covers mo y x) rs = [] then Some (overlay ?st0 ! y ! x)
                  else map_of (label_to_color st) (get_label (last (filter (covers mo y x) rs))))
                 = Some (overlay st ! y ! x)"
      by blast
    then show "expected_pixel (label_to_color st) (filter (covers mo y x) rs) = Some (overlay st ! y ! x)"
      using z by (simp add: expected_pixel_def split: if_splits)
    show "blend orig_np (overlay st) ! y ! x = blend_pixel (orig_np ! y ! x) (overlay st ! y ! x)"
      using assms(2) r yx by (rule blend_nth)
  qed
  show ?thesis
    by (rule exI [of _ out], rule exI [of _ st]) (intro conjI l p r q)
qed

text \<open>A run on the 2 by 2 image: \<open>grass\<close> on the top row, a \<open>null\<close> mask that is skipped,
  then \<open>road\<close> on the left column, which overwrites \<open>grass\<close> at the top left.\<close>

lemma zeros_2_2: "zeros 2 2 = [[(0, 0, 0), (0, 0, 0)], [(0, 0, 0), (0, 0, 0)]]"
  by (simp add: zeros_def numeral_2_eq_2)

lemma three_results_loop:
  "loop left_column_decoder \<lparr>overlay = zeros 2 2, label_to_color = []\<rparr> three_results =
     ([''Unexpected mask type for sky: '' @ NoneType],
      Inr \<lparr>overlay = [[(60, 180, 75), (230, 25, 75)], [(60, 180, 75), (0, 0, 0)]],
           label_to_color = [(''grass'', (230, 25, 75)), (''road'', (60, 180, 75))]\<rparr>)"
  unfolding zeros_2_2
  by (simp add: three_results_def grass_result_def null_mask_result_def road_result_def
      left_column_decoder_def seg_defs)

theorem C5_overlay_last_wins_witness:
  "shape2 grass_image = (2, 2) \<and> rect 2 2 grass_image
   \<and> list_all (entry_ok left_column_decoder 2 2) three_results
   \<and> plot_segmentation_map left_column_decoder grass_image three_results ''segmentation_map.png'' =
       ([''Unexpected mask type for sky: '' @ NoneType,
         ''Segmentation map saved as segmentation_map.png''],
        Inr \<lparr>blended = [[(80, 140, 87), (165, 62, 87)], [(80, 140, 87), (50, 50, 50)]],
             legend = [(''grass'', (230, 25, 75)), (''road'', (60, 180, 75))],
             saved_as = ''segmentation_map.png''\<rparr>)"
proof -
  have h1: "shape2 grass_image = (2, 2)"
    by (simp add: grass_image_def shape2_def)
  have h2: "rect 2 2 grass_image"
    by (simp add: grass_image_def rect_def)
  have h3: "list_all (entry_ok left_column_decoder 2 2) three_results"
    by (simp add: three_results_def grass_result_def null_mask_result_def road_result_def
        left_column_decoder_def entry_ok_def get_mask_def rect_def)
  from C5_overlay_last_wins [OF h1 h2 h3, of "''segmentation_map.png''"]
  obtain out st where
      l: "loop left_column_decoder \<lparr>overlay = zeros 2 2, label_to_color = []\<rparr> three_results = (out, Inr st)"
    and p: "plot_segmentation_map left_column_decoder grass_image three_results ''segmentation_map.png'' =
        (out @ [''Segmentation map saved as '' @ ''segmentation_map.png''],
         Inr \<lparr>blended = blend grass_image (overlay st), legend = label_to_color st,
              saved_as = ''segmentation_map.png''\<rparr>)"
    by blast
  from l have o: "out = [''Unexpected mask type for sky: '' @ NoneType]"
    and s: "st = \<lparr>overlay = [[(60, 180, 75), (230, 25, 75)], [(60, 180, 75), (0, 0, 0)]],
           label_to_color = [(''grass'', (230, 25, 75)), (''road'', (60, 180, 75))]\<rparr>"
    unfolding three_results_loop by simp_all
  have b: "blend grass_image [[(60, 180, 75), (230, 25, 75)], [(60, 180, 75), (0, 0, 0)]]
      = [[(80, 140, 87), (165, 62, 87)], [(80, 140, 87), (50, 50, 50)]]"
    by (simp add: blend_def grass_image_def blend_channel_div)
  from p have "plot_segmentation_map left_column_decoder grass_image three_results ''segmentation_map.png'' =
       ([''Unexpected mask type for sky: '' @ NoneType,
         ''Segmentation map saved as segmentation_map.png''],
        Inr \<lparr>blended = [[(80, 140, 87), (165, 62, 87)], [(80, 140, 87), (50, 50, 50)]],
             legend = [(''grass'', (230, 25, 75)), (''road'', (60, 180, 75))],
             saved_as = ''segmentation_map.png''\<rparr>)"
    unfolding o s by (simp add: b)
  with h1 h2 h3 show ?thesis by blast
qed

subsection \<open>Skipped entries\<close>







subsection \<open>The legend\<close>

lemma set_first_seen: "set (first_seen xs) = set xs"
  by (induction xs rule: first_seen.induct) auto

lemma distinct_first_seen: "distinct (first_seen xs)"
  by (induction xs rule: first_seen.induct) (auto simp: set_first_seen)

lemma upt_shift: "[a ..< a + Suc n] = a # [Suc a ..< Suc a + n]"
proof -
  have "a < a + Suc n" by simp
  then have "[a ..< a + Suc n] = a # [Suc a ..< a + Suc n]"
    by (rule upt_conv_Cons)
  then show ?thesis by simp
qed

text \<open>Folding \<open>assign_color\<close> over labels appends the new labels in the order of
  their first occurrence, with consecutive palette entries.\<close>

lemma foldl_assign_first_seen:
  "foldl assign_color m ls =
     m @ zip (first_seen (filter (\<lambda>l. l \<notin> fst ` set m) ls))
             (map (\<lambda>i. palette ! (i mod 10))
                [length m ..< length m + length (first_seen (filter (\<lambda>l. l \<notin> fst ` set m) ls))])"
proof (induction ls arbitrary: m)
  case Nil
  then show ?case by simp
next
  case (Cons x ls)
  show ?case
  proof (cases "x \<in> fst ` set m")
    case True
    then have "assign_color m x = m" by (rule assign_color_old)
    with True Cons.IH [of m] show ?thesis by simp
  next
    case False
    let ?m' = "m @ [(x, palette ! (length m mod 10))]"
    let ?new = "first_seen (filter (\<lambda>l. l \<notin> fst ` set ?m') ls)"
    from False have a: "assign_color m x = ?m'" by (rule assign_color_new)
    have f: "filter (\<lambda>l. l \<notin> fst ` set ?m') ls = filter (\<lambda>y. y \<noteq> x) (filter (\<lambda>l. l \<notin> fst ` set m) ls)"
      by (auto intro: filter_cong)
    have "first_seen (filter (\<lambda>l. l \<notin> fst ` set m) (x # ls)) =
        x # first_seen (filter (\<lambda>y. y \<noteq> x) (filter (\<lambda>l. l \<notin> fst ` set m) ls))"
      using False by (simp del: filter_filter)
    then have n: "first_seen (filter (\<lambda>l. l \<notin> fst ` set m) (x # ls)) = x # ?new"
      by (simp only: f)
    have u: "[length m ..< length m + length (x # ?new)] =
        length m # [length ?m' ..< length ?m' + length ?new]"
      using upt_shift [of "length m" "length ?new"] by simp
    have "foldl assign_color m (x # ls) = foldl assign_color ?m' ls"
      using a by simp
    also have "\<dots> = ?m' @ zip ?new (map (\<lambda>i. palette ! (i mod 10)) [length ?m' ..< length ?m' + length ?new])"
      by (rule Cons.IH)
    also have "\<dots> = m @ zip (x # ?new)
        (map (\<lambda>i. palette ! (i mod 10)) (length m # [length ?m' ..< length ?m' + length ?new]))"
      by simp
    finally show ?thesis
      unfolding n u .
  qed
qed

lemma foldl_assign_legend:
  "map fst (foldl assign_color [] ls) = first_seen ls"
  "map snd (foldl assign_color [] ls) =
     map (\<lambda>i. palette ! (i mod 10)) [0 ..< length (foldl assign_color [] ls)]"
  using foldl_assign_first_seen [of "[]" ls] by simp_all

text \<open>
  Claim C9: when every recognized mask decodes to the shape of the image, the function
  completes and the labels of its legend are exactly the labels of the recognized
  entries, each once, in the order of their first occurrence among those entries; the
  \<open>i\<close>-th of them has palette entry \<open>i mod 10\<close>. So a label that only skipped entries
  carry takes no palette index and has no legend entry, while the pixels of a decoded
  mask play no part: a mask without foreground still brings its label into the legend.
\<close>

theorem C9_legend_labels:
  assumes "shape2 orig_np = (h, w)" and "list_all (entry_ok mo h w) rs"
  shows "\<exists>out fig.
      plot_segmentation_map mo orig_np rs path = (out, Inr fig)
    \<and> map fst (legend fig) = first_seen (map get_label (filter recognized rs))
    \<and> map snd (legend fig) = map (\<lambda>i. palette ! (i mod 10)) [0 ..< length (legend fig)]
    \<and> distinct (map fst (legend fig))
    \<and> fst ` set (legend fig) = get_label ` set (filter recognized rs)"
proof -
  let ?st0 = "\<lparr>overlay = zeros h w, label_to_color = []\<rparr>"
  let ?ls = "map get_label (filter recognized rs)"
  have s0: "shape2 (overlay ?st0) = (h, w)" "rect h w (overlay ?st0)"
    using shape2_zeros [OF assms(1)] rect_zeros by simp_all
  from loop_invariant [OF s0 assms(2)]
  obtain out st where l: "loop mo ?st0 rs = (out, Inr st)"
      and m: "label_to_color st = foldl assign_color (label_to_color ?st0) ?ls"
    by blast
  let ?fig = "\<lparr>blended = blend orig_np (overlay st), legend = label_to_color st, saved_as = path\<rparr>"
  have p: "plot_segmentation_map mo orig_np rs path =
      (out @ [''Segmentation map saved as '' @ path], Inr ?fig)"
    by (rule plot_of_loop [OF assms(1) l])
  from m have m': "legend ?fig = foldl assign_color [] ?ls" by simp
  have k: "map fst (legend ?fig) = first_seen ?ls"
    unfolding m' by (rule foldl_assign_legend(1))
  have c: "map snd (legend ?fig) = map (\<lambda>i. palette ! (i mod 10)) [0 ..< length (legend ?fig)]"
    unfolding m' by (rule foldl_assign_legend(2))
  have d: "distinct (map fst (legend ?fig))"
    unfolding k by (rule distinct_first_seen)
  have "set (map fst (legend ?fig)) = set ?ls"
    unfolding k by (rule set_first_seen)
  then have e: "fst ` set (legend ?fig) = get_label ` set (filter recognized rs)"
    by (simp only: set_map)
  show ?thesis
    by (rule exI [of _ "out @ [''Segmentation map saved as '' @ path]"], rule exI [of _ ?fig])
       (intro conjI p k c d e)
qed

text \<open>A skipped \<open>sky\<close>, a \<open>car\<close> whose mask has no foreground (twice) and \<open>grass\<close>:
  the legend is \<open>car\<close> with the first palette entry and \<open>grass\<close> with the second.\<close>

theorem C9_legend_labels_witness:
  "shape2 grass_image = (2, 2)
   \<and> list_all (entry_ok no_decoder 2 2) legend_results
   \<and> map_sum id legend (snd (plot_segmentation_map no_decoder grass_image legend_results ''segmentation_map.png''))
       = Inr [(''car'', (230, 25, 75)), (''grass'', (60, 180, 75))]"
proof -
  have h1: "shape2 grass_image = (2, 2)"
    by (simp add: grass_image_def shape2_def)
  have h2: "list_all (entry_ok no_decoder 2 2) legend_results"
    by (simp add: legend_results_def grass_result_def null_mask_result_def empty_mask_result_def
        entry_ok_def get_mask_def rect_def)
  from C9_legend_labels [OF h1 h2, of "''segmentation_map.png''"]
  obtain out fig where
      p: "plot_segmentation_map no_decoder grass_image legend_results ''segmentation_map.png'' = (out, Inr fig)"
    and k: "map fst (legend fig) = first_seen (map get_label (filter recognized legend_results))"
    and c: "map snd (legend fig) = map (\<lambda>i. palette ! (i mod 10)) [0 ..< length (legend fig)]"
    by blast
  have "first_seen (map get_label (filter recognized legend_results)) = [''car'', ''grass'']"
    by (simp add: legend_results_def grass_result_def null_mask_result_def empty_mask_result_def
        recognized_def get_mask_def get_label_def)
  with k have k': "map fst (legend fig) = [''car'', ''grass'']" by simp
  then have "length (legend fig) = 2"
    by (metis length_map length_Cons list.size(3) numeral_2_eq_2)
  with c have c': "map snd (legend fig) = [(230, 25, 75), (60, 180, 75)]"
    by (simp add: palette_def upt_rec)
  have "legend fig = zip (map fst (legend fig)) (map snd (legend fig))"
    by (simp add: zip_map_fst_snd)
  with k' c' have "legend fig = [(''car'', (230, 25, 75)), (''grass'', (60, 180, 75))]"
    by simp
  with p h1 h2 show ?thesis by simp
qed

subsection \<open>Entries without a label\<close>




subsection \<open>The vision script\<close>











text \<open>
  Claim C7: \<open>make_text_image_request\<close> returns what \<open>response.json()\<close> gives for the body
  of the response and never reads the status code: two worlds that agree on everything
  but the status codes of their responses give the same result, and so does a world in
  which every status code is rewritten. The body is that of the answer to the request
  the function builds.
\<close>

theorem C7_status_ignored:
  "(getenv w1 = getenv w2 \<longrightarrow> open_rb w1 = open_rb w2 \<longrightarrow> b64encode w1 = b64encode w2 \<longrightarrow>
    json_loads w1 = json_loads w2 \<longrightarrow>
    (\<forall>req. same_but_status (requests_post w1 req) (requests_post w2 req)) \<longrightarrow>
      make_text_image_request w1 prompt image_path = make_text_image_request w2 prompt image_path)
   \<and> (open_rb w image_path = Inr bytes \<longrightarrow> (\<forall>req. requests_post w req = Inr resp) \<longrightarrow>
        make_text_image_request w prompt image_path = json_loads w (body_text resp))
   \<and> make_text_image_request
        (w\<lparr>requests_post := \<lambda>req. map_sum id (status_code_update f) (requests_post w req)\<rparr>)
        prompt image_path
      = make_text_image_request w prompt image_path
   \<and> (open_rb w image_path = Inr bytes \<longrightarrow>
        requests_post w (chat_request w prompt (b64encode w bytes)) = Inr resp \<longrightarrow>
        make_text_image_request w prompt image_path = json_loads w (body_text resp))"
proof (intro conjI impI)
  assume e: "getenv w1 = getenv w2" "open_rb w1 = open_rb w2" "b64encode w1 = b64encode w2"
    "json_loads w1 = json_loads w2"
    and s: "\<forall>req. same_but_status (requests_post w1 req) (requests_post w2 req)"
  have k: "(case requests_post w1 req of Inl e \<Rightarrow> Inl e | Inr resp \<Rightarrow> json_loads w2 (body_text resp))
      = (case requests_post w2 req of Inl e \<Rightarrow> Inl e | Inr resp \<Rightarrow> json_loads w2 (body_text resp))" for req
    using s [rule_format, of req] by (auto simp: same_but_status_def split: sum.splits)
  show "make_text_image_request w1 prompt image_path = make_text_image_request w2 prompt image_path"
    unfolding make_text_image_request_def encode_image_def e Let_def
    by (simp add: k split: sum.splits)
next
  assume "open_rb w image_path = Inr bytes" "\<forall>req. requests_post w req = Inr resp"
  then show "make_text_image_request w prompt image_path = json_loads w (body_text resp)"
    by (simp add: make_text_image_request_def encode_image_def)
next
  show "make_text_image_request
        (w\<lparr>requests_post := \<lambda>req. map_sum id (status_code_update f) (requests_post w req)\<rparr>)
        prompt image_path
      = make_text_image_request w prompt image_path"
    by (simp add: make_text_image_request_def encode_image_def map_sum_def split: sum.splits)
next
  assume "open_rb w image_path = Inr bytes"
    "requests_post w (chat_request w prompt (b64encode w bytes)) = Inr resp"
  then show "make_text_image_request w prompt image_path = json_loads w (body_text resp)"
    by (simp add: make_text_image_request_def encode_image_def chat_request_def)
qed

text \<open>The same reply with status 200 and with status 401.\<close>

theorem C7_status_ignored_witness:
  "make_text_image_request (world_chat 200 ''choices'') ''Describe the image.'' ''my_img.jpg'' =
     make_text_image_request (world_chat 401 ''choices'') ''Describe the image.'' ''my_img.jpg''
   \<and> make_text_image_request (world_chat 401 ''choices'') ''Describe the image.'' ''my_img.jpg'' =
       Inr two_choices"
proof -
  let ?w1 = "world_chat 200 ''choices''"
  let ?w2 = "world_chat 401 ''choices'' :: json world"
  let ?resp = "\<lparr>status_code = 401, body_text = ''choices''\<rparr>"
  have h: "getenv ?w1 = getenv ?w2" "open_rb ?w1 = open_rb ?w2" "b64encode ?w1 = b64encode ?w2"
    "json_loads ?w1 = json_loads ?w2"
    "\<forall>req. same_but_status (requests_post ?w1 req) (requests_post ?w2 req)"
    by (simp_all add: world_chat_def fixed_world_def same_but_status_def)
  have h2: "open_rb ?w2 ''my_img.jpg'' = Inr [0, 1, 2]" "\<forall>req. requests_post ?w2 req = Inr ?resp"
    "json_loads ?w2 (body_text ?resp) = Inr two_choices"
    by (simp_all add: world_chat_def fixed_world_def loads_chat_def)
  from C7_status_ignored [of ?w1 ?w2 "''Describe the image.''" "''my_img.jpg''" w bytes resp f] h
  have 1: "make_text_image_request ?w1 ''Describe the image.'' ''my_img.jpg'' =
     make_text_image_request ?w2 ''Describe the image.'' ''my_img.jpg''"
    by blast
  from C7_status_ignored [of ?w1 ?w2 "''Describe the image.''" "''my_img.jpg''" ?w2 "[0, 1, 2]" ?resp f] h2
  have 2: "make_text_image_request ?w2 ''Describe the image.'' ''my_img.jpg'' = Inr two_choices"
    by metis
  from 1 2 show ?thesis ..
qed

end
